theory Spec2Isabelle
  imports
    Complex_Main
    "HOL-Library.Char_ord"
    "HOL-Library.List_Lexorder"
    "HOL-Library.Log_Nat"
    "HOL-Library.Multiset"
begin

section \<open>Expense tracker: the store and its four entry points\<close>

text \<open>
  The program keeps one relation \<open>expenses\<close> in an SQLite file and offers
  \<open>init_db\<close>, \<open>add_expense\<close>, \<open>list_expenses\<close>, \<open>summarize\<close> and the
  resource \<open>categories\<close>.  The embedding below follows \<open>main.py\<close> statement by
  statement; the SQL text of each statement is given the meaning SQLite gives it.

  Conventions.
  \<^item> A string is the list of the bytes of its UTF-8 encoding.  The order on strings is the
    lexicographic order on bytes (\<open>List_Lexorder\<close> over \<open>Char_ord\<close>), which is what
    SQLite's default \<open>BINARY\<close> collation computes with \<open>memcmp\<close>.
  \<^item> A \<open>REAL\<close> value is an IEEE double that is not NaN, for SQLite keeps NaN as
    \<open>NULL\<close>.  A finite double is the real number it denotes, so \<open>-0.0\<close> and \<open>0.0\<close>
    are one value.
  \<^item> The sum that SQLite's \<open>SUM\<close> returns for the amounts of one group, taken in the
    order of their ids, is a parameter \<open>sqlite_sum\<close> of \<open>summarize\<close>.  It is a
    floating-point summation whose algorithm belongs to the SQLite library and differs
    between its versions: plain addition of doubles in older ones, compensated summation
    in newer ones.  Its result is a double, or \<open>NULL\<close> when the sum is NaN.
  \<^item> An argument of \<open>add_expense\<close> is \<open>None\<close> when the caller passes Python's
    \<open>None\<close>; otherwise it has the type the interface declares, a string or a number,
    where a number is a Python \<open>int\<close> of any size or a Python \<open>float\<close>.
  \<^item> An operation returns \<open>Inl\<close> of the exception it raises, or \<open>Inr\<close> of its result
    paired with the database it leaves behind.  After an exception the \<open>with\<close> block
    rolls the transaction back, so the database is the one the operation started from.
\<close>

subsection \<open>Values and rows\<close>

text \<open>The finite doubles: the reals \<open>m * 2 ^ e\<close> with \<open>\<bar>m\<bar> < 2 ^ 53\<close> and
  \<open>-1074 \<le> e \<le> 971\<close>, here with \<open>j = e + 1074\<close>.\<close>

definition is_float64 :: "real \<Rightarrow> bool" where
  "is_float64 x \<longleftrightarrow>
     (\<exists>m::int. \<exists>j::nat. \<bar>m\<bar> < 2 ^ 53 \<and> j \<le> 2045 \<and> x * 2 ^ 1074 = of_int m * 2 ^ j)"

typedef float64 = "{x. is_float64 x}"
proof
  show "0 \<in> {x. is_float64 x}"
    by (auto simp: is_float64_def intro!: exI [of _ "0::int"] exI [of _ "0::nat"])
qed

text \<open>A double that is not NaN.\<close>

datatype double = Fin float64 | PosInf | NegInf


text \<open>The double \<open>m / 2 ^ k\<close>, for \<open>\<bar>m\<bar> < 2 ^ 53\<close> and \<open>k \<le> 1074\<close>: \<open>dyadic 25 1\<close> is
  \<open>12.5\<close>, and \<open>dyadic 3602879701896397 55\<close> is the double written \<open>0.1\<close>.\<close>

definition dyadic :: "int \<Rightarrow> nat \<Rightarrow> double" where
  "dyadic m k = Fin (Abs_float64 (of_int m / 2 ^ k))"

text \<open>The conversion of a 64-bit integer to a double, as the \<open>REAL\<close> affinity of the
  column \<open>amount\<close> performs it: the 53 leading bits are kept and the rest is rounded to
  nearest, ties to even.\<close>

definition round53 :: "int \<Rightarrow> int" where
  "round53 i =
     (let n = \<bar>i\<bar>; k = nat (bitlen n - 53); q = n div 2 ^ k; r = n mod 2 ^ k
      in if 2 * r < 2 ^ k \<or> (2 * r = 2 ^ k \<and> even q) then sgn i * (q * 2 ^ k)
         else sgn i * ((q + 1) * 2 ^ k))"

definition int_to_double :: "int \<Rightarrow> double" where
  "int_to_double i = Fin (Abs_float64 (of_int (round53 i)))"

text \<open>A number as a caller passes it: a Python \<open>int\<close>, or a Python \<open>float\<close>, which is a
  double or NaN.\<close>

datatype number = IntNum int | FloatNum double | FloatNaN

datatype pyval = PyNone | PyInt int | PyFloat double | PyStr string

type_synonym pydict = "(string \<times> pyval) list"

text \<open>The exceptions that \<open>execute\<close> raises, which the specification calls
  \<open>StorageError\<close>: those of the \<open>sqlite3\<close> module, and \<open>OverflowError\<close> when a
  parameter cannot be bound.\<close>

datatype storage_error = OperationalError string | IntegrityError string | OverflowError string

datatype io_error = FileNotFoundError | UnicodeDecodeError

text \<open>One row of \<open>expenses\<close>, with the columns of the \<open>CREATE TABLE\<close> statement:
  \<open>date\<close>, \<open>amount\<close> and \<open>category\<close> are \<open>NOT NULL\<close>, \<open>subcategory\<close> and \<open>note\<close>
  may hold \<open>NULL\<close>.  The columns \<open>id\<close> and \<open>note\<close> are written \<open>id'\<close> and \<open>note'\<close>.\<close>

record expense =
  id' :: int
  date :: string
  amount :: double
  category :: string
  subcategory :: "string option"
  note' :: "string option"

text \<open>The relation together with its entry in \<open>sqlite_sequence\<close>, which
  \<open>AUTOINCREMENT\<close> maintains: the largest rowid the relation has ever held.\<close>

record table =
  rows :: "expense list"
  seq :: int

text \<open>The database file: \<open>None\<close> while it holds no relation \<open>expenses\<close>.\<close>

type_synonym database = "table option"

definition rows_of :: "database \<Rightarrow> expense list" where
  "rows_of db = (case db of None \<Rightarrow> [] | Some t \<Rightarrow> rows t)"

definition seq_of :: "database \<Rightarrow> int" where
  "seq_of db = (case db of None \<Rightarrow> 0 | Some t \<Rightarrow> seq t)"

text \<open>The database an operation leaves behind, given the one it started from.\<close>

definition state_after :: "database \<Rightarrow> 'e + ('a \<times> database) \<Rightarrow> database" where
  "state_after db outcome = (case outcome of Inl e \<Rightarrow> db | Inr (res, db') \<Rightarrow> db')"

subsection \<open>\<open>init_db\<close>\<close>

text \<open>\<open>CREATE TABLE IF NOT EXISTS expenses(...)\<close>: creates the empty relation when it is
  absent and does nothing when a relation of that name exists.\<close>

definition init_db :: "database \<Rightarrow> storage_error + (unit \<times> database)" where
  "init_db db =
     (case db of
        None \<Rightarrow> Inr ((), Some \<lparr>rows = [], seq = 0\<rparr>)
      | Some t \<Rightarrow> Inr ((), Some t))"

subsection \<open>\<open>add_expense\<close>\<close>

definition MAX_ROWID :: int where
  "MAX_ROWID = 9223372036854775807"

definition no_such_table :: storage_error where
  "no_such_table = OperationalError ''no such table: expenses''"

definition database_full :: storage_error where
  "database_full = OperationalError ''database or disk is full''"

definition not_null_failed :: "string \<Rightarrow> storage_error" where
  "not_null_failed col = IntegrityError (''NOT NULL constraint failed: expenses.'' @ col)"

definition int_too_large :: storage_error where
  "int_too_large = OverflowError ''Python int too large to convert to SQLite INTEGER''"

text \<open>The value the column \<open>amount\<close> receives for the argument: \<open>None\<close> and NaN are
  bound as \<open>NULL\<close>, a \<open>float\<close> as itself, an \<open>int\<close> as a 64-bit integer, which the
  column's affinity turns into a double; an \<open>int\<close> outside 64 bits cannot be bound.\<close>

definition bind_amount :: "number option \<Rightarrow> storage_error + double option" where
  "bind_amount amt =
     (case amt of
        None \<Rightarrow> Inr None
      | Some (IntNum i) \<Rightarrow>
          if - (2 ^ 63) \<le> i \<and> i < 2 ^ 63 then Inr (Some (int_to_double i))
          else Inl int_too_large
      | Some (FloatNum x) \<Rightarrow> Inr (Some x)
      | Some FloatNaN \<Rightarrow> Inr None)"

text \<open>The rowid of an \<open>INTEGER PRIMARY KEY AUTOINCREMENT\<close> column: one more than the
  largest rowid in the relation (1 when it is empty), raised to one more than the recorded
  \<open>seq\<close>; \<open>SQLITE_FULL\<close> once the largest rowid has been used.\<close>

definition new_rowid :: "table \<Rightarrow> storage_error + int" where
  "new_rowid t =
     (let largest = (if rows t = [] then 0 else Max (set (map id' (rows t))))
      in if seq t = MAX_ROWID \<or> MAX_ROWID \<le> largest then Inl database_full
         else Inr (max (largest + 1) (seq t + 1)))"

text \<open>\<open>INSERT INTO expenses(date, amount, category, subcategory, note) VALUES (?,?,?,?,?)\<close>,
  returning \<open>lastrowid\<close>.  The statement is prepared, which needs the relation; then the
  parameters are bound; then the row gets its rowid and the \<open>NOT NULL\<close> constraints are
  checked in the order of the columns.\<close>

definition sql_insert ::
  "database \<Rightarrow> string option \<Rightarrow> number option \<Rightarrow> string option \<Rightarrow> string option \<Rightarrow> string option
     \<Rightarrow> storage_error + (int \<times> database)" where
  "sql_insert db dt amt cat sub nt =
     (case db of
        None \<Rightarrow> Inl no_such_table
      | Some t \<Rightarrow>
          (case bind_amount amt of
             Inl e \<Rightarrow> Inl e
           | Inr a \<Rightarrow>
               (case new_rowid t of
                  Inl e \<Rightarrow> Inl e
                | Inr v \<Rightarrow>
                    (case dt of
                       None \<Rightarrow> Inl (not_null_failed ''date'')
                     | Some d \<Rightarrow>
                         (case a of
                            None \<Rightarrow> Inl (not_null_failed ''amount'')
                          | Some x \<Rightarrow>
                              (case cat of
                                 None \<Rightarrow> Inl (not_null_failed ''category'')
                               | Some c \<Rightarrow>
                                   Inr (v, Some \<lparr>rows = rows t @
                                          [\<lparr>id' = v, date = d, amount = x, category = c,
                                            subcategory = sub, note' = nt\<rparr>],
                                        seq = v\<rparr>)))))))"

definition ok_dict :: "int \<Rightarrow> pydict" where
  "ok_dict rid = [(''status'', PyStr ''ok''), (''id'', PyInt rid)]"

definition add_expense ::
  "database \<Rightarrow> string option \<Rightarrow> number option \<Rightarrow> string option \<Rightarrow> string option \<Rightarrow> string option
     \<Rightarrow> storage_error + (pydict \<times> database)" where
  "add_expense db dt amt cat sub nt =
     (case sql_insert db dt amt cat sub nt of
        Inl e \<Rightarrow> Inl e
      | Inr (rid, db') \<Rightarrow> Inr (ok_dict rid, db'))"

text \<open>A sequence of \<open>add_expense\<close> calls on one store: the results of the calls that
  succeed, in order, and the database after the last call.  A call that raises leaves the
  database as it was.\<close>

type_synonym add_args =
  "string option \<times> number option \<times> string option \<times> string option \<times> string option"

fun add_all :: "database \<Rightarrow> add_args list \<Rightarrow> pydict list \<times> database" where
  "add_all db [] = ([], db)"
| "add_all db ((dt, amt, cat, sub, nt) # calls) =
     (case add_expense db dt amt cat sub nt of
        Inl e \<Rightarrow> add_all db calls
      | Inr (res, db') \<Rightarrow> (case add_all db' calls of (rs, db'') \<Rightarrow> (res # rs, db'')))"

subsection \<open>\<open>list_expenses\<close>\<close>

definition opt_str :: "string option \<Rightarrow> pyval" where
  "opt_str s = (case s of None \<Rightarrow> PyNone | Some x \<Rightarrow> PyStr x)"

definition list_cols :: "string list" where
  "list_cols = [''id'', ''date'', ''amount'', ''category'', ''subcategory'', ''note'']"

definition row_values :: "expense \<Rightarrow> pyval list" where
  "row_values r =
     [PyInt (id' r), PyStr (date r), PyFloat (amount r), PyStr (category r),
      opt_str (subcategory r), opt_str (note' r)]"

text \<open>\<open>dict(zip(cols, r))\<close> for one fetched row.\<close>

definition expense_dict :: "expense \<Rightarrow> pydict" where
  "expense_dict r = zip list_cols (row_values r)"

text \<open>\<open>date BETWEEN ? AND ?\<close>.\<close>

definition between :: "string \<Rightarrow> string \<Rightarrow> expense \<Rightarrow> bool" where
  "between start_date end_date r \<longleftrightarrow> start_date \<le> date r \<and> date r \<le> end_date"

definition list_expenses ::
  "database \<Rightarrow> string \<Rightarrow> string \<Rightarrow> storage_error + (pydict list \<times> database)" where
  "list_expenses db start_date end_date =
     (case db of
        None \<Rightarrow> Inl no_such_table
      | Some t \<Rightarrow>
          Inr (map expense_dict
                 (sort_key id' (filter (between start_date end_date) (rows t))),
               db))"

subsection \<open>\<open>summarize\<close>\<close>

text \<open>Python's \<open>if category:\<close> is false for \<open>None\<close> and for the empty string.\<close>

definition truthy :: "string option \<Rightarrow> bool" where
  "truthy c = (case c of None \<Rightarrow> False | Some s \<Rightarrow> s \<noteq> [])"

text \<open>The \<open>WHERE\<close> clause that \<open>summarize\<close> builds.\<close>

definition selected :: "string \<Rightarrow> string \<Rightarrow> string option \<Rightarrow> expense \<Rightarrow> bool" where
  "selected start_date end_date c r \<longleftrightarrow>
     between start_date end_date r \<and> (if truthy c then category r = the c else True)"

text \<open>The Python value of a \<open>SUM\<close>: \<open>None\<close> for \<open>NULL\<close>.\<close>

definition opt_float :: "double option \<Rightarrow> pyval" where
  "opt_float x = (case x of None \<Rightarrow> PyNone | Some y \<Rightarrow> PyFloat y)"

definition summary_dict :: "string \<Rightarrow> double option \<Rightarrow> pydict" where
  "summary_dict c tot = zip [''category'', ''total_amount''] [PyStr c, opt_float tot]"

text \<open>\<open>SELECT category, SUM(amount) AS total_amount ... GROUP BY category ORDER BY
  category ASC\<close> over the selected rows, which come in the order of their ids.\<close>

definition group_sum :: "(double list \<Rightarrow> double option) \<Rightarrow> expense list \<Rightarrow> pydict list" where
  "group_sum sqlite_sum rs =
     map (\<lambda>c. summary_dict c (sqlite_sum (map amount (filter (\<lambda>r. category r = c) rs))))
       (sort (remdups (map category rs)))"

definition summarize ::
  "(double list \<Rightarrow> double option) \<Rightarrow> database \<Rightarrow> string \<Rightarrow> string \<Rightarrow> string option
     \<Rightarrow> storage_error + (pydict list \<times> database)" where
  "summarize sqlite_sum db start_date end_date c =
     (case db of
        None \<Rightarrow> Inl no_such_table
      | Some t \<Rightarrow>
          Inr (group_sum sqlite_sum
                 (filter (selected start_date end_date c) (sort_key id' (rows t))),
               db))"


subsection \<open>The \<open>categories\<close> resource\<close>

text \<open>\<open>open(CATEGORIES_PATH, "r", encoding="utf-8").read()\<close>: the file is opened in text
  mode, so its bytes are decoded as UTF-8 (strictly) and every line ending \<open>CR LF\<close> or
  \<open>CR\<close> is read as \<open>LF\<close>.  The file is \<open>None\<close> when it does not exist.\<close>

definition CR :: char where "CR = CHR 0x0D"
definition LF :: char where "LF = CHR 0x0A"

definition byte :: "char \<Rightarrow> nat" where
  "byte c = of_char c"

definition inside :: "nat \<Rightarrow> nat \<Rightarrow> char \<Rightarrow> bool" where
  "inside lo hi c \<longleftrightarrow> lo \<le> byte c \<and> byte c \<le> hi"

text \<open>The well-formed byte sequences of UTF-8: no overlong form, no surrogate, nothing
  above U+10FFFF.\<close>

fun valid_utf8 :: "string \<Rightarrow> bool" where
  "valid_utf8 [] = True"
| "valid_utf8 (b # bs) =
     (if byte b < 0x80 then valid_utf8 bs
      else if inside 0xC2 0xDF b then
        (case bs of
           b1 # r \<Rightarrow> inside 0x80 0xBF b1 \<and> valid_utf8 r
         | _ \<Rightarrow> False)
      else if inside 0xE0 0xEF b then
        (case bs of
           b1 # b2 # r \<Rightarrow>
             (if byte b = 0xE0 then inside 0xA0 0xBF b1
              else if byte b = 0xED then inside 0x80 0x9F b1
              else inside 0x80 0xBF b1)
             \<and> inside 0x80 0xBF b2 \<and> valid_utf8 r
         | _ \<Rightarrow> False)
      else if inside 0xF0 0xF4 b then
        (case bs of
           b1 # b2 # b3 # r \<Rightarrow>
             (if byte b = 0xF0 then inside 0x90 0xBF b1
              else if byte b = 0xF4 then inside 0x80 0x8F b1
              else inside 0x80 0xBF b1)
             \<and> inside 0x80 0xBF b2 \<and> inside 0x80 0xBF b3 \<and> valid_utf8 r
         | _ \<Rightarrow> False)
      else False)"

fun universal_newlines :: "string \<Rightarrow> string" where
  "universal_newlines [] = []"
| "universal_newlines [c] = (if c = CR then [LF] else [c])"
| "universal_newlines (c # d # cs) =
     (if c = CR \<and> d = LF then LF # universal_newlines cs
      else if c = CR then LF # universal_newlines (d # cs)
      else c # universal_newlines (d # cs))"

definition categories :: "string option \<Rightarrow> io_error + string" where
  "categories file =
     (case file of
        None \<Rightarrow> Inl FileNotFoundError
      | Some bytes \<Rightarrow>
          if valid_utf8 bytes then Inr (universal_newlines bytes) else Inl UnicodeDecodeError)"

text \<open>The life of the resource: the file is replaced from outside (\<open>FileEdit\<close>, with
  \<open>None\<close> for its removal) and fetched by clients (\<open>Fetch\<close>).  The program keeps
  nothing between two fetches, so the only state is the file itself; \<open>serve\<close> lists the
  answers to the fetches in order.\<close>

datatype event = FileEdit "string option" | Fetch

fun serve :: "string option \<Rightarrow> event list \<Rightarrow> (io_error + string) list" where
  "serve file [] = []"
| "serve file (FileEdit f # es) = serve f es"
| "serve file (Fetch # es) = categories file # serve file es"

subsection \<open>The scenario of the specification\<close>

text \<open>The two inserts of the specification's scenario, with a call in between that
  passes \<open>None\<close> for the date, and the store after them.\<close>

definition scenario_calls :: "add_args list" where
  "scenario_calls =
     [(Some ''2024-01-05'', Some (FloatNum (dyadic 25 1)), Some ''food'', Some ''lunch'', Some ''''),
      (None, Some (IntNum 3), Some ''food'', Some '''', Some ''''),
      (Some ''2024-01-10'', Some (FloatNum (dyadic 40 0)), Some ''transport'', Some '''',
       Some '''')]"

definition scenario_table :: table where
  "scenario_table =
     \<lparr>rows =
        [\<lparr>id' = 1, date = ''2024-01-05'', amount = dyadic 25 1, category = ''food'',
          subcategory = Some ''lunch'', note' = Some ''''\<rparr>,
         \<lparr>id' = 2, date = ''2024-01-10'', amount = dyadic 40 0, category = ''transport'',
          subcategory = Some '''', note' = Some ''''\<rparr>],
      seq = 2\<rparr>"


section \<open>Properties\<close>

subsection \<open>Doubles\<close>






text \<open>Integers on their way into the column: small ones are kept, those of more than 53
  bits are rounded, ties to even.\<close>

lemma round53_small: "round53 40 = 40"
  by code_simp

lemma round53_tie: "round53 (2 ^ 53 + 1) = 2 ^ 53"
  by code_simp

lemma round53_up: "round53 (2 ^ 53 + 3) = 2 ^ 53 + 4"
  by code_simp

lemma round53_largest: "round53 (2 ^ 63 - 1) = 2 ^ 63"
  by code_simp

lemma round53_negative: "round53 (- (2 ^ 53 + 1)) = - (2 ^ 53)"
  by code_simp

lemma bind_amount_rounds:
  "bind_amount (Some (IntNum (2 ^ 53 + 1))) = bind_amount (Some (IntNum (2 ^ 53)))"
proof -
  have "round53 9007199254740993 = 9007199254740992" by code_simp
  moreover have "round53 9007199254740992 = 9007199254740992" by code_simp
  ultimately show ?thesis
    by (simp add: bind_amount_def int_to_double_def)
qed

lemma bind_amount_too_large:
  "bind_amount (Some (IntNum (2 ^ 63))) = Inl int_too_large"
  by (simp add: bind_amount_def)

subsection \<open>Listing a date range\<close>

lemma list_expenses_Some:
  "list_expenses (Some t) s e =
     Inr (map expense_dict (sort_key id' (filter (between s e) (rows t))), Some t)"
  by (simp add: list_expenses_def)

lemma expense_dict_keys:
  "map fst (expense_dict r) = [''id'', ''date'', ''amount'', ''category'', ''subcategory'', ''note'']"
  by (simp add: expense_dict_def list_cols_def row_values_def)

lemma expense_dict_values:
  "map snd (expense_dict r) =
     [PyInt (id' r), PyStr (date r), PyFloat (amount r), PyStr (category r),
      opt_str (subcategory r), opt_str (note' r)]"
  by (simp add: expense_dict_def list_cols_def row_values_def)

text \<open>
  C1.  On every store, for all bounds \<open>d1\<close> and \<open>d2\<close> (in particular for \<open>d1 \<le> d2\<close>),
  \<open>list_expenses\<close> returns exactly the rows whose date lies between the bounds in the
  lexicographic order on strings, both ends included: the fetched rows are, as a multiset,
  the rows of the relation that satisfy the condition.  They come in ascending order of
  \<open>id\<close>, and each is returned as a dictionary with the six keys \<open>id\<close>, \<open>date\<close>,
  \<open>amount\<close>, \<open>category\<close>, \<open>subcategory\<close>, \<open>note\<close> bound to the row's values.
\<close>

theorem list_expenses_range:
  "\<exists>res. list_expenses (Some t) d1 d2 = Inr (map expense_dict res, Some t)
     \<and> mset res = filter_mset (\<lambda>r. d1 \<le> date r \<and> date r \<le> d2) (mset (rows t))
     \<and> sorted (map id' res)
     \<and> (\<forall>r\<in>set res.
          map fst (expense_dict r) =
            [''id'', ''date'', ''amount'', ''category'', ''subcategory'', ''note''] \<and>
          map snd (expense_dict r) =
            [PyInt (id' r), PyStr (date r), PyFloat (amount r), PyStr (category r),
             opt_str (subcategory r), opt_str (note' r)])"
proof -
  let ?res = "sort_key id' (filter (between d1 d2) (rows t))"
  have "list_expenses (Some t) d1 d2 = Inr (map expense_dict ?res, Some t)"
    by (rule list_expenses_Some)
  moreover have "mset ?res = filter_mset (\<lambda>r. d1 \<le> date r \<and> date r \<le> d2) (mset (rows t))"
    by (simp add: between_def)
  moreover have "sorted (map id' ?res)"
    by (rule sorted_sort_key)
  ultimately show ?thesis
    using expense_dict_keys expense_dict_values by blast
qed

theorem list_expenses_range_witness:
  "\<exists>res. res \<noteq> [] \<and>
     list_expenses (Some scenario_table) ''2024-01-01'' ''2024-01-31''
       = Inr (map expense_dict res, Some scenario_table)
     \<and> mset res = mset (rows scenario_table)
     \<and> sorted (map id' res)
     \<and> (\<forall>r\<in>set res.
          map fst (expense_dict r) =
            [''id'', ''date'', ''amount'', ''category'', ''subcategory'', ''note''])"
proof -
  from list_expenses_range [of scenario_table "''2024-01-01''" "''2024-01-31''"]
  obtain res where
    a: "list_expenses (Some scenario_table) ''2024-01-01'' ''2024-01-31''
          = Inr (map expense_dict res, Some scenario_table)"
    and b: "mset res = filter_mset (\<lambda>r. ''2024-01-01'' \<le> date r \<and> date r \<le> ''2024-01-31'')
              (mset (rows scenario_table))"
    and c: "sorted (map id' res)"
    and d: "\<forall>r\<in>set res. map fst (expense_dict r) =
            [''id'', ''date'', ''amount'', ''category'', ''subcategory'', ''note'']"
    by blast
  have e: "filter_mset (\<lambda>r. ''2024-01-01'' \<le> date r \<and> date r \<le> ''2024-01-31'')
              (mset (rows scenario_table)) = mset (rows scenario_table)"
    by (simp add: scenario_table_def)
  have "res \<noteq> []" using b e by (auto simp: scenario_table_def)
  with a b c d e show ?thesis by auto
qed

subsection \<open>Summaries by category\<close>

lemma summarize_Some:
  "summarize sqlite_sum (Some t) s e c =
     Inr (group_sum sqlite_sum (filter (selected s e c) (sort_key id' (rows t))), Some t)"
  by (simp add: summarize_def)

lemma selected_None:
  "selected s e None = (\<lambda>r. s \<le> date r \<and> date r \<le> e)"
  by (simp add: selected_def truthy_def between_def fun_eq_iff)

lemma selected_empty:
  "selected s e (Some []) = selected s e None"
  by (simp add: selected_def truthy_def fun_eq_iff)

lemma selected_Some:
  "c \<noteq> [] \<Longrightarrow> selected s e (Some c) = (\<lambda>r. s \<le> date r \<and> date r \<le> e \<and> category r = c)"
  by (simp add: selected_def truthy_def between_def fun_eq_iff)

lemma summary_dict_pairs:
  "summary_dict c x = [(''category'', PyStr c), (''total_amount'', opt_float x)]"
  by (simp add: summary_dict_def)

lemma remdups_const:
  "set xs \<subseteq> {c} \<Longrightarrow> xs \<noteq> [] \<Longrightarrow> remdups xs = [c]"
proof (induction xs)
  case Nil
  then show ?case by simp
next
  case (Cons x xs)
  then have x: "x = c" by simp
  show ?case
  proof (cases "xs = []")
    case True
    with x show ?thesis by simp
  next
    case False
    with Cons have "remdups xs = [c]" by simp
    moreover from False Cons.prems have "c \<in> set xs" by (cases xs) auto
    ultimately show ?thesis using x by simp
  qed
qed



text \<open>The scenario of the specification: two categories, in alphabetical order.\<close>

lemma summarize_scenario:
  "summarize sqlite_sum (Some scenario_table) ''2024-01-01'' ''2024-01-31'' None =
     Inr ([ [(''category'', PyStr ''food''),
            (''total_amount'', opt_float (sqlite_sum [dyadic 25 1]))],
           [(''category'', PyStr ''transport''),
            (''total_amount'', opt_float (sqlite_sum [dyadic 40 0]))] ],
          Some scenario_table)"
  by (simp add: summarize_Some group_sum_def summary_dict_pairs selected_None scenario_table_def)






text \<open>
  C8, as amended.  When \<open>summarize\<close> is given a non-empty category, the result holds at
  most one dictionary: the one for that category, with what \<open>SUM\<close> returns for the amounts
  of the rows in range of that category, when such a row exists, and no dictionary at all
  otherwise.
\<close>

theorem summarize_one_category:
  assumes "c \<noteq> []"
  shows "summarize sqlite_sum (Some t) s e (Some c) =
     Inr (if \<exists>r\<in>set (rows t). s \<le> date r \<and> date r \<le> e \<and> category r = c
          then [ [(''category'', PyStr c),
                 (''total_amount'',
                  opt_float (sqlite_sum (map amount
                    (filter (\<lambda>r. s \<le> date r \<and> date r \<le> e \<and> category r = c)
                       (sort_key id' (rows t))))))] ]
          else [],
          Some t)"
proof -
  let ?P = "\<lambda>r. s \<le> date r \<and> date r \<le> e \<and> category r = c"
  let ?m = "filter ?P (sort_key id' (rows t))"
  have sel: "filter (selected s e (Some c)) (sort_key id' (rows t)) = ?m"
    using assms by (simp add: selected_Some)
  have cats: "remdups (map category ?m) = [c]" if "?m \<noteq> []"
    using that by (intro remdups_const) auto
  have empty: "?m = [] \<longleftrightarrow> \<not> (\<exists>r\<in>set (rows t). ?P r)"
    by (simp add: filter_empty_conv)
  have same: "filter (\<lambda>r. category r = c) ?m = ?m"
    by (simp cong: conj_cong)
  show ?thesis
  proof (cases "?m = []")
    case True
    with empty sel show ?thesis
      by (simp add: summarize_Some group_sum_def)
  next
    case False
    with empty cats sel same show ?thesis
      by (simp add: summarize_Some group_sum_def summary_dict_pairs)
  qed
qed

theorem summarize_one_category_witness:
  "\<forall>sqlite_sum. ''food'' \<noteq> [] \<and>
   summarize sqlite_sum (Some scenario_table) ''2024-01-01'' ''2024-01-31'' (Some ''food'') =
     Inr ([ [(''category'', PyStr ''food''),
            (''total_amount'', opt_float (sqlite_sum [dyadic 25 1]))] ],
          Some scenario_table)"
proof
  fix sqlite_sum :: "double list \<Rightarrow> double option"
  show "''food'' \<noteq> [] \<and>
   summarize sqlite_sum (Some scenario_table) ''2024-01-01'' ''2024-01-31'' (Some ''food'') =
     Inr ([ [(''category'', PyStr ''food''),
            (''total_amount'', opt_float (sqlite_sum [dyadic 25 1]))] ],
          Some scenario_table)"
    using summarize_one_category [of "''food''" sqlite_sum scenario_table "''2024-01-01''"
        "''2024-01-31''"]
    by (simp add: scenario_table_def)
qed

text \<open>
  C8 as stated fails for the empty string, which is a category argument like any other but
  is not used as a filter: on the scenario store the answer has two dictionaries, for
  \<open>food\<close> and for \<open>transport\<close>, although no row has the empty category.
\<close>

theorem summarize_empty_category_counterexample:
  "\<forall>sqlite_sum.
     summarize sqlite_sum (Some scenario_table) ''2024-01-01'' ''2024-01-31'' (Some '''') =
       Inr ([ [(''category'', PyStr ''food''),
              (''total_amount'', opt_float (sqlite_sum [dyadic 25 1]))],
             [(''category'', PyStr ''transport''),
              (''total_amount'', opt_float (sqlite_sum [dyadic 40 0]))] ],
            Some scenario_table)"
  by (simp add: summarize_Some group_sum_def summary_dict_pairs selected_empty selected_None
      scenario_table_def)

subsection \<open>Empty ranges, initialisation and the frame of each operation\<close>

text \<open>
  C5.  On every store that holds the relation, as every store does once \<open>init_db\<close> has
  run when the module is loaded, \<open>list_expenses\<close> over a range that holds no row returns
  the empty list and raises nothing, and the store is as before.  A range whose start lies
  after its end is such a range, whatever the store holds.
\<close>

theorem list_expenses_empty_range:
  "((\<forall>r\<in>set (rows t). \<not> (s \<le> date r \<and> date r \<le> e))
      \<longrightarrow> list_expenses (Some t) s e = Inr ([], Some t))
   \<and> (e < s \<longrightarrow> list_expenses (Some t) s e = Inr ([], Some t))"
proof -
  have none: "filter (between s e) (rows t) = []"
    if "\<forall>r\<in>set (rows t). \<not> (s \<le> date r \<and> date r \<le> e)"
    using that by (simp add: filter_empty_conv between_def)
  have "\<forall>r\<in>set (rows t). \<not> (s \<le> date r \<and> date r \<le> e)" if "e < s"
    using that by auto
  with none show ?thesis
    by (simp add: list_expenses_Some)
qed

theorem list_expenses_empty_range_witness:
  "filter (\<lambda>r. ''2024-02-01'' \<le> date r \<and> date r \<le> ''2024-01-01'') (rows scenario_table) = []
   \<and> ''2024-01-01'' < ''2024-02-01''
   \<and> list_expenses (Some scenario_table) ''2024-02-01'' ''2024-01-01''
       = Inr ([], Some scenario_table)"
  using list_expenses_empty_range [of scenario_table "''2024-02-01''" "''2024-01-01''"]
  by (simp add: scenario_table_def)

text \<open>
  C6.  \<open>init_db\<close> is idempotent.  On a store whose relation exists it raises nothing and
  returns the store as it is: the relation, every row and the rowid counter are untouched.
  On any store at all the call returns a store that holds the relation, a second call
  changes nothing that the first call left, and no call loses a row.
\<close>

theorem init_db_idempotent:
  "init_db (Some t) = Inr ((), Some t)
   \<and> (\<exists>db'. init_db db = Inr ((), db') \<and> db' \<noteq> None \<and> init_db db' = Inr ((), db')
          \<and> rows_of db' = rows_of db)"
  by (cases db) (simp_all add: init_db_def rows_of_def)

text \<open>
  C7.  \<open>list_expenses\<close> and \<open>summarize\<close> leave the database exactly as they found it,
  for every database and all arguments, whether they return or raise.  No operation
  changes or removes a row: \<open>add_expense\<close> leaves the rows it found in place and in order
  and at most appends to them, and \<open>init_db\<close> keeps the rows as they are.
\<close>

theorem queries_read_only:
  "state_after db (list_expenses db s e) = db
   \<and> state_after db (summarize sqlite_sum db s e c) = db
   \<and> (\<exists>new. rows_of (state_after db (add_expense db dt amt cat sub nt)) = rows_of db @ new)
   \<and> rows_of (state_after db (init_db db)) = rows_of db"
proof -
  have "state_after db (list_expenses db s e) = db"
    by (cases db) (simp_all add: state_after_def list_expenses_def)
  moreover have "state_after db (summarize sqlite_sum db s e c) = db"
    by (cases db) (simp_all add: state_after_def summarize_def)
  moreover have "\<exists>new. rows_of (state_after db (add_expense db dt amt cat sub nt)) = rows_of db @ new"
    by (auto simp: state_after_def add_expense_def sql_insert_def rows_of_def
        split: option.splits sum.splits)
  moreover have "rows_of (state_after db (init_db db)) = rows_of db"
    by (cases db) (simp_all add: state_after_def init_db_def rows_of_def)
  ultimately show ?thesis by blast
qed

subsection \<open>Identifiers\<close>

lemma new_rowid_Inr:
  assumes "new_rowid t = Inr v"
  shows "seq t < v" and "\<forall>r\<in>set (rows t). id' r < v"
proof -
  let ?largest = "if rows t = [] then 0 else Max (set (map id' (rows t)))"
  from assms have v: "v = max (?largest + 1) (seq t + 1)"
    by (simp add: new_rowid_def Let_def split: if_splits)
  then show "seq t < v" by simp
  show "\<forall>r\<in>set (rows t). id' r < v"
  proof
    fix r assume r: "r \<in> set (rows t)"
    then have "rows t \<noteq> []" by auto
    moreover from r have "id' r \<le> Max (set (map id' (rows t)))" by simp
    ultimately show "id' r < v" using v by simp
  qed
qed

lemma bind_amount_Some:
  "bind_amount amt = Inr (Some x) \<longleftrightarrow>
     amt = Some (FloatNum x)
     \<or> (\<exists>i. amt = Some (IntNum i) \<and> - (2 ^ 63) \<le> i \<and> i < 2 ^ 63 \<and> x = int_to_double i)"
  by (auto simp: bind_amount_def split: option.splits number.splits)

lemma bind_amount_None:
  "bind_amount amt = Inr None \<longleftrightarrow> amt = None \<or> amt = Some FloatNaN"
  by (auto simp: bind_amount_def split: option.splits number.splits)

lemma bind_amount_Inl:
  "bind_amount amt = Inl e \<longleftrightarrow>
     e = int_too_large \<and> (\<exists>i. amt = Some (IntNum i) \<and> (i < - (2 ^ 63) \<or> 2 ^ 63 \<le> i))"
  by (auto simp: bind_amount_def split: option.splits number.splits)

lemma sql_insert_Inr:
  assumes "sql_insert db dt amt cat sub nt = Inr (rid, db')"
  shows "\<exists>t d x c. db = Some t \<and> dt = Some d \<and> bind_amount amt = Inr (Some x) \<and> cat = Some c
           \<and> new_rowid t = Inr rid
           \<and> db' = Some \<lparr>rows = rows t @
                       [\<lparr>id' = rid, date = d, amount = x, category = c,
                         subcategory = sub, note' = nt\<rparr>],
                     seq = rid\<rparr>"
  using assms by (auto simp: sql_insert_def split: option.splits sum.splits)

lemma new_rowid_Inl:
  "new_rowid t = Inl e \<Longrightarrow> e = database_full"
  by (simp add: new_rowid_def Let_def split: if_splits)

lemma sql_insert_Inl:
  assumes "sql_insert db dt amt cat sub nt = Inl e"
  shows "db = None \<or> dt = None \<or> amt = None \<or> amt = Some FloatNaN
           \<or> (\<exists>i. amt = Some (IntNum i) \<and> (i < - (2 ^ 63) \<or> 2 ^ 63 \<le> i))
           \<or> cat = None
           \<or> (\<exists>t. db = Some t \<and> new_rowid t = Inl database_full)"
proof (cases db)
  case None
  then show ?thesis by simp
next
  case (Some t)
  show ?thesis
  proof (cases "bind_amount amt")
    case (Inl e')
    then show ?thesis by (simp add: bind_amount_Inl)
  next
    case (Inr a)
    show ?thesis
    proof (cases "new_rowid t")
      case (Inl e')
      with new_rowid_Inl [OF Inl] Some show ?thesis by simp
    next
      case new: (Inr v)
      show ?thesis
      proof (cases a)
        case None
        with Inr have "amt = None \<or> amt = Some FloatNaN"
          by (simp add: bind_amount_None)
        then show ?thesis by blast
      next
        case x: (Some x)
        with assms Some Inr new show ?thesis
          by (auto simp: sql_insert_def split: option.splits)
      qed
    qed
  qed
qed

lemma add_expense_Inr:
  assumes "add_expense db dt amt cat sub nt = Inr (res, db')"
  shows "\<exists>rid. res = ok_dict rid \<and> sql_insert db dt amt cat sub nt = Inr (rid, db')"
  using assms by (auto simp: add_expense_def split: sum.splits)

lemma add_expense_Inl:
  "add_expense db dt amt cat sub nt = Inl e \<longleftrightarrow> sql_insert db dt amt cat sub nt = Inl e"
  by (auto simp: add_expense_def split: sum.splits)

lemma add_all_rows:
  "add_all db calls = (rs, db') \<Longrightarrow>
     \<exists>new. rs = map (\<lambda>r. ok_dict (id' r)) new
        \<and> rows_of db' = rows_of db @ new
        \<and> sorted_wrt (<) (map id' new)
        \<and> (\<forall>n\<in>set new. seq_of db < id' n \<and> (\<forall>r\<in>set (rows_of db). id' r < id' n))"
proof (induction calls arbitrary: db rs db')
  case Nil
  then show ?case by simp
next
  case (Cons call calls)
  obtain dt amt cat sub nt where call: "call = (dt, amt, cat, sub, nt)"
    by (cases call) auto
  show ?case
  proof (cases "add_expense db dt amt cat sub nt")
    case (Inl e)
    with Cons.prems call have "add_all db calls = (rs, db')" by simp
    then show ?thesis by (rule Cons.IH)
  next
    case (Inr pair)
    obtain res db1 where pair: "pair = (res, db1)" by (cases pair)
    obtain rs1 db2 where rest: "add_all db1 calls = (rs1, db2)"
      by (cases "add_all db1 calls")
    from Cons.prems call Inr pair rest have out: "rs = res # rs1" "db' = db2" by simp_all
    from Inr pair obtain rid where res: "res = ok_dict rid"
      and ins: "sql_insert db dt amt cat sub nt = Inr (rid, db1)"
      using add_expense_Inr by blast
    from sql_insert_Inr [OF ins] obtain t d a c where
      db: "db = Some t" and fresh: "new_rowid t = Inr rid"
      and db1: "db1 = Some \<lparr>rows = rows t @
                       [\<lparr>id' = rid, date = d, amount = a, category = c,
                         subcategory = sub, note' = nt\<rparr>],
                     seq = rid\<rparr>"
      by blast
    let ?row = "\<lparr>id' = rid, date = d, amount = a, category = c,
                  subcategory = sub, note' = nt\<rparr>"
    from new_rowid_Inr [OF fresh] have above: "seq t < rid" "\<forall>r\<in>set (rows t). id' r < rid"
      by blast+
    from Cons.IH [OF rest] obtain new where
      n1: "rs1 = map (\<lambda>r. ok_dict (id' r)) new"
      and n2: "rows_of db2 = rows_of db1 @ new"
      and n3: "sorted_wrt (<) (map id' new)"
      and n4: "\<forall>n\<in>set new. seq_of db1 < id' n \<and> (\<forall>r\<in>set (rows_of db1). id' r < id' n)"
      by blast
    have rows1: "rows_of db1 = rows_of db @ [?row]" and seq1: "seq_of db1 = rid"
      using db db1 by (simp_all add: rows_of_def seq_of_def)
    have "rs = map (\<lambda>r. ok_dict (id' r)) (?row # new)"
      using out res n1 by simp
    moreover have "rows_of db' = rows_of db @ (?row # new)"
      using out n2 rows1 by simp
    moreover have "sorted_wrt (<) (map id' (?row # new))"
      using n3 n4 seq1 by auto
    moreover have "\<forall>n\<in>set (?row # new).
        seq_of db < id' n \<and> (\<forall>r\<in>set (rows_of db). id' r < id' n)"
    proof
      fix n assume "n \<in> set (?row # new)"
      then consider "n = ?row" | "n \<in> set new" by auto
      then show "seq_of db < id' n \<and> (\<forall>r\<in>set (rows_of db). id' r < id' n)"
      proof cases
        case 1
        with above db show ?thesis by (simp add: rows_of_def seq_of_def)
      next
        case 2
        with n4 have "rid < id' n" and "\<forall>r\<in>set (rows_of db1). id' r < id' n"
          using seq1 by auto
        with above db rows1 show ?thesis by (auto simp: seq_of_def)
      qed
    qed
    ultimately show ?thesis by blast
  qed
qed

lemma add_all_scenario:
  "add_all (Some \<lparr>rows = [], seq = 0\<rparr>) scenario_calls = ([ok_dict 1, ok_dict 2], Some scenario_table)"
  by (simp add: scenario_calls_def scenario_table_def add_expense_def sql_insert_def
      bind_amount_def new_rowid_def MAX_ROWID_def not_null_failed_def)


lemma scenario_ids: "map id' (rows scenario_table) = [1, 2]"
  by (simp add: scenario_table_def)

text \<open>
  C3.  Run any sequence of \<open>add_expense\<close> calls on one store.  The ids returned by the
  calls that succeed are strictly increasing, so each is greater than every id returned
  before it; each is also greater than the recorded \<open>seq\<close> and than the id of every row
  the store held at the start.  The rows the store held are all still there, unchanged and
  in place, followed by one new row per returned id: an id keeps its row, and if the ids
  were distinct at the start they are distinct at the end.
\<close>

theorem add_expense_ids_increase:
  "\<exists>ids new.
      fst (add_all db calls) = map ok_dict ids
    \<and> rows_of (snd (add_all db calls)) = rows_of db @ new
    \<and> map id' new = ids
    \<and> sorted_wrt (<) ids
    \<and> (\<forall>i\<in>set ids. seq_of db < i \<and> (\<forall>r\<in>set (rows_of db). id' r < i))
    \<and> (distinct (map id' (rows_of db)) \<longrightarrow> distinct (map id' (rows_of (snd (add_all db calls)))))"
proof -
  obtain rs db' where run: "add_all db calls = (rs, db')"
    by (cases "add_all db calls")
  from add_all_rows [OF run] obtain new where
    n1: "rs = map (\<lambda>r. ok_dict (id' r)) new"
    and n2: "rows_of db' = rows_of db @ new"
    and n3: "sorted_wrt (<) (map id' new)"
    and n4: "\<forall>n\<in>set new. seq_of db < id' n \<and> (\<forall>r\<in>set (rows_of db). id' r < id' n)"
    by blast
  have "fst (add_all db calls) = map ok_dict (map id' new)"
    using run n1 by (simp add: comp_def)
  moreover have "rows_of (snd (add_all db calls)) = rows_of db @ new"
    using run n2 by simp
  moreover have "\<forall>i\<in>set (map id' new). seq_of db < i \<and> (\<forall>r\<in>set (rows_of db). id' r < i)"
    using n4 by auto
  moreover have "distinct (map id' (rows_of (snd (add_all db calls))))"
    if "distinct (map id' (rows_of db))"
  proof -
    have "distinct (map id' new)"
      using n3 by (simp add: strict_sorted_iff)
    moreover have "set (map id' (rows_of db)) \<inter> set (map id' new) = {}"
      using n4 by fastforce
    ultimately show ?thesis
      using that run n2 by simp
  qed
  ultimately show ?thesis using n3 by blast
qed

theorem add_expense_ids_increase_witness:
  "\<exists>ids. ids = [1, 2]
     \<and> fst (add_all (Some \<lparr>rows = [], seq = 0\<rparr>) scenario_calls) = map ok_dict ids
     \<and> map id' (rows_of (snd (add_all (Some \<lparr>rows = [], seq = 0\<rparr>) scenario_calls))) = ids
     \<and> sorted_wrt (<) ids
     \<and> distinct (map id' (rows_of (snd (add_all (Some \<lparr>rows = [], seq = 0\<rparr>) scenario_calls))))"
proof -
  let ?F = "Some \<lparr>rows = [], seq = 0\<rparr>"
  have run: "add_all ?F scenario_calls = ([ok_dict 1, ok_dict 2], Some scenario_table)"
    by (rule add_all_scenario)
  have start: "rows_of ?F = []"
    by (simp add: rows_of_def)
  have finish: "rows_of (Some scenario_table) = rows scenario_table"
    by (simp add: rows_of_def)
  from add_expense_ids_increase [of ?F scenario_calls]
  have "\<exists>ids new. [ok_dict 1, ok_dict 2] = map ok_dict ids
          \<and> rows scenario_table = new \<and> map id' new = ids \<and> sorted_wrt (<) ids
          \<and> (\<forall>i\<in>set ids. seq_of ?F < i \<and> (\<forall>r\<in>set ([]::expense list). id' r < i))
          \<and> distinct (map id' (rows scenario_table))"
    by (simp only: run fst_conv snd_conv start finish append_Nil list.map distinct.simps
        simp_thms)
  then obtain ids new where a: "[ok_dict 1, ok_dict 2] = map ok_dict ids"
    and b: "rows scenario_table = new" and c: "map id' new = ids"
    and d: "sorted_wrt (<) ids" and e: "distinct (map id' (rows scenario_table))"
    by (elim exE conjE) (rule that)
  from b c have ids: "ids = [1, 2]"
    by (simp only: scenario_ids [symmetric])
  have "fst (add_all ?F scenario_calls) = map ok_dict ids"
    using a by (simp only: run fst_conv)
  moreover have "map id' (rows_of (snd (add_all ?F scenario_calls))) = ids"
    using ids by (simp only: run snd_conv finish scenario_ids)
  moreover have "distinct (map id' (rows_of (snd (add_all ?F scenario_calls))))"
    using e by (simp only: run snd_conv finish)
  ultimately show ?thesis
    using ids d by (intro exI conjI)
qed

subsection \<open>The outcome of an insert\<close>

text \<open>Calls on concrete stores: one that succeeds; one that passes \<open>None\<close> for the date;
  one whose amount is NaN, which is bound as \<open>NULL\<close>; one whose amount is an \<open>int\<close> of
  more than 64 bits, which cannot be bound; one on a store whose rowids are exhausted.\<close>

lemma add_expense_scenario:
  "add_expense (Some scenario_table) (Some ''2024-02-01'') (Some (FloatNum (dyadic 9 0)))
      (Some ''rent'') None None =
     Inr ([(''status'', PyStr ''ok''), (''id'', PyInt 3)],
          Some \<lparr>rows = rows scenario_table @
                  [\<lparr>id' = 3, date = ''2024-02-01'', amount = dyadic 9 0, category = ''rent'',
                    subcategory = None, note' = None\<rparr>],
                seq = 3\<rparr>)"
  by (simp add: scenario_table_def add_expense_def sql_insert_def bind_amount_def new_rowid_def
      MAX_ROWID_def ok_dict_def)

lemma add_expense_null_date:
  "add_expense (Some scenario_table) None (Some (IntNum 9)) (Some ''rent'') None None =
     Inl (IntegrityError ''NOT NULL constraint failed: expenses.date'')"
  by (simp add: scenario_table_def add_expense_def sql_insert_def bind_amount_def new_rowid_def
      MAX_ROWID_def not_null_failed_def)

lemma add_expense_nan:
  "add_expense (Some scenario_table) (Some ''2024-02-01'') (Some FloatNaN) (Some ''rent'')
      None None =
     Inl (IntegrityError ''NOT NULL constraint failed: expenses.amount'')"
  by (simp add: scenario_table_def add_expense_def sql_insert_def bind_amount_def new_rowid_def
      MAX_ROWID_def not_null_failed_def)

lemma add_expense_int_too_large:
  "add_expense (Some t) dt (Some (IntNum (2 ^ 63))) cat sub nt =
     Inl (OverflowError ''Python int too large to convert to SQLite INTEGER'')"
  by (simp add: add_expense_def sql_insert_def bind_amount_def int_too_large_def)

lemma add_expense_exhausted:
  "add_expense (Some \<lparr>rows = [], seq = 9223372036854775807\<rparr>) (Some d) (Some (FloatNum x))
      (Some c) s n =
     Inl (OperationalError ''database or disk is full'')"
  by (simp add: add_expense_def sql_insert_def bind_amount_def new_rowid_def MAX_ROWID_def
      database_full_def)

text \<open>
  C4.  Every call of \<open>add_expense\<close> ends in one of two ways.  Either it returns the
  dictionary \<open>{status: "ok", id: rid}\<close>, where \<open>rid\<close> is the id of the one row the call
  has appended with the given values, an id that no row of the store carried before; the
  amount of the row is the \<open>float\<close> given, or the double nearest to the \<open>int\<close> given.  Or
  it raises, and then the exception is the very one the \<open>INSERT\<close> statement raised,
  handed on unchanged after the single attempt; this happens only when the relation is
  missing, when a \<open>NOT NULL\<close> column is given \<open>None\<close>, when the amount is NaN, when the
  amount is an \<open>int\<close> outside 64 bits, or when the rowids are exhausted.
\<close>

theorem add_expense_ok_or_error:
  "(\<exists>rid t d x c.
       db = Some t \<and> dt = Some d \<and> cat = Some c
     \<and> (amt = Some (FloatNum x)
          \<or> (\<exists>i. amt = Some (IntNum i) \<and> - (2 ^ 63) \<le> i \<and> i < 2 ^ 63 \<and> x = int_to_double i))
     \<and> add_expense db dt amt cat sub nt =
         Inr ([(''status'', PyStr ''ok''), (''id'', PyInt rid)],
              Some \<lparr>rows = rows t @
                      [\<lparr>id' = rid, date = d, amount = x, category = c,
                        subcategory = sub, note' = nt\<rparr>],
                    seq = rid\<rparr>)
     \<and> rid \<notin> id' ` set (rows t))
   \<or> (\<exists>e. add_expense db dt amt cat sub nt = Inl e
         \<and> sql_insert db dt amt cat sub nt = Inl e
         \<and> (db = None \<or> dt = None \<or> amt = None \<or> amt = Some FloatNaN
              \<or> (\<exists>i. amt = Some (IntNum i) \<and> (i < - (2 ^ 63) \<or> 2 ^ 63 \<le> i))
              \<or> cat = None
              \<or> (\<exists>t. db = Some t \<and> new_rowid t = Inl database_full)))"
proof (cases "sql_insert db dt amt cat sub nt")
  case (Inl e)
  then have "add_expense db dt amt cat sub nt = Inl e"
    by (simp add: add_expense_Inl)
  with Inl sql_insert_Inl [OF Inl] show ?thesis by blast
next
  case (Inr pair)
  obtain rid db' where pair: "pair = (rid, db')" by (cases pair)
  from sql_insert_Inr [OF Inr [unfolded pair] ] obtain t d x c where
    args: "db = Some t" "dt = Some d" "cat = Some c"
    and bound: "bind_amount amt = Inr (Some x)"
    and fresh: "new_rowid t = Inr rid"
    and db': "db' = Some \<lparr>rows = rows t @
                       [\<lparr>id' = rid, date = d, amount = x, category = c,
                         subcategory = sub, note' = nt\<rparr>],
                     seq = rid\<rparr>"
    by blast
  from bound have amt: "amt = Some (FloatNum x)
      \<or> (\<exists>i. amt = Some (IntNum i) \<and> - (2 ^ 63) \<le> i \<and> i < 2 ^ 63 \<and> x = int_to_double i)"
    by (simp only: bind_amount_Some)
  from new_rowid_Inr(2) [OF fresh] have "rid \<notin> id' ` set (rows t)" by auto
  moreover have "add_expense db dt amt cat sub nt =
         Inr ([(''status'', PyStr ''ok''), (''id'', PyInt rid)], db')"
    using Inr pair by (simp add: add_expense_def ok_dict_def)
  ultimately show ?thesis using args amt db' by blast
qed

theorem add_expense_ok_or_error_witness:
  "\<exists>rid. add_expense (Some scenario_table) (Some ''2024-02-01'') (Some (FloatNum (dyadic 9 0)))
            (Some ''rent'') None None =
     Inr ([(''status'', PyStr ''ok''), (''id'', PyInt rid)],
          Some \<lparr>rows = rows scenario_table @
                  [\<lparr>id' = rid, date = ''2024-02-01'', amount = dyadic 9 0, category = ''rent'',
                    subcategory = None, note' = None\<rparr>],
                seq = rid\<rparr>)
     \<and> rid \<notin> id' ` set (rows scenario_table) \<and> rid = 3"
proof -
  let ?call = "add_expense (Some scenario_table) (Some ''2024-02-01'')
      (Some (FloatNum (dyadic 9 0))) (Some ''rent'') None None"
  note outcome = add_expense_ok_or_error [of "Some scenario_table" "Some ''2024-02-01''"
      "Some ''rent''" "Some (FloatNum (dyadic 9 0))" None None]
  show ?thesis
  proof (rule disjE [OF outcome])
    assume "\<exists>rid t d x c.
       Some scenario_table = Some t \<and> Some ''2024-02-01'' = Some d \<and> Some ''rent'' = Some c
     \<and> (Some (FloatNum (dyadic 9 0)) = Some (FloatNum x)
          \<or> (\<exists>i. Some (FloatNum (dyadic 9 0)) = Some (IntNum i) \<and> - (2 ^ 63) \<le> i \<and> i < 2 ^ 63
                \<and> x = int_to_double i))
     \<and> ?call =
         Inr ([(''status'', PyStr ''ok''), (''id'', PyInt rid)],
              Some \<lparr>rows = rows t @
                      [\<lparr>id' = rid, date = d, amount = x, category = c,
                        subcategory = None, note' = None\<rparr>],
                    seq = rid\<rparr>)
     \<and> rid \<notin> id' ` set (rows t)"
    then obtain rid t d x c where t: "Some scenario_table = Some t"
      and d: "Some ''2024-02-01'' = Some d" and c: "Some ''rent'' = Some c"
      and x: "Some (FloatNum (dyadic 9 0)) = Some (FloatNum x)
          \<or> (\<exists>i. Some (FloatNum (dyadic 9 0)) = Some (IntNum i) \<and> - (2 ^ 63) \<le> i \<and> i < 2 ^ 63
                \<and> x = int_to_double i)"
      and call: "?call =
         Inr ([(''status'', PyStr ''ok''), (''id'', PyInt rid)],
              Some \<lparr>rows = rows t @
                      [\<lparr>id' = rid, date = d, amount = x, category = c,
                        subcategory = None, note' = None\<rparr>],
                    seq = rid\<rparr>)"
      and new: "rid \<notin> id' ` set (rows t)"
      by (elim exE conjE) (rule that)
    from t d c x have eqs: "t = scenario_table" "d = ''2024-02-01''" "c = ''rent''"
      "x = dyadic 9 0"
      by simp_all
    from call have "rid = 3"
      by (simp only: add_expense_scenario sum.inject prod.inject list.inject pyval.inject)
    with call new eqs show ?thesis by simp
  next
    assume "\<exists>e. ?call = Inl e
         \<and> sql_insert (Some scenario_table) (Some ''2024-02-01'') (Some (FloatNum (dyadic 9 0)))
              (Some ''rent'') None None = Inl e
         \<and> (Some scenario_table = None \<or> Some ''2024-02-01'' = None
              \<or> Some (FloatNum (dyadic 9 0)) = None
              \<or> Some (FloatNum (dyadic 9 0)) = Some FloatNaN
              \<or> (\<exists>i. Some (FloatNum (dyadic 9 0)) = Some (IntNum i)
                    \<and> (i < - (2 ^ 63) \<or> 2 ^ 63 \<le> i))
              \<or> Some ''rent'' = None
              \<or> (\<exists>t. Some scenario_table = Some t \<and> new_rowid t = Inl database_full))"
    then obtain e where "?call = Inl e"
      by (elim exE conjE)
    then show ?thesis by (simp only: add_expense_scenario sum.distinct)
  qed
qed

subsection \<open>The categories resource\<close>

lemma CR_neq_LF: "CR \<noteq> LF"
  by (simp add: CR_def LF_def)

lemma universal_newlines_no_CR:
  "CR \<notin> set (universal_newlines b)"
  by (induction b rule: universal_newlines.induct) (auto simp: CR_neq_LF CR_neq_LF [symmetric])

lemma universal_newlines_same:
  "CR \<notin> set b \<Longrightarrow> universal_newlines b = b"
  by (induction b rule: universal_newlines.induct) auto

lemma serve_append:
  "serve f0 (es @ [FileEdit f, Fetch]) = serve f0 es @ [categories f]"
proof (induction es arbitrary: f0)
  case Nil
  show ?case by simp
next
  case (Cons ev es)
  then show ?case by (cases ev) simp_all
qed

text \<open>A file that is absent, and one that is not well-formed UTF-8 (an overlong form).\<close>

lemma categories_invalid:
  "categories (Some [CHR 0xC0, CHR 0x80]) = Inl UnicodeDecodeError"
  by (simp add: categories_def byte_def inside_def)

lemma categories_missing:
  "categories None = Inl FileNotFoundError"
  by (simp add: categories_def)

text \<open>
  C9, as amended.  Every fetch of \<open>categories\<close> reads the file as it is at that moment:
  after any history, a fetch that follows an edit answers with the content that edit wrote,
  nothing being kept from earlier fetches.  The file is read as text, not as bytes: when
  its content is well-formed UTF-8, the answer is that content with every \<open>CR LF\<close> and
  every other \<open>CR\<close> replaced by \<open>LF\<close>, so it holds no \<open>CR\<close>, and it is the content
  byte for byte exactly when the file holds no \<open>CR\<close>.  Nothing else about the content is
  checked.
\<close>

theorem categories_current_text:
  "valid_utf8 b \<Longrightarrow>
     categories (Some b) = Inr (universal_newlines b)
   \<and> serve file (es @ [FileEdit (Some b), Fetch]) = serve file es @ [Inr (universal_newlines b)]
   \<and> CR \<notin> set (universal_newlines b)
   \<and> (CR \<notin> set b \<longrightarrow> categories (Some b) = Inr b)"
  by (simp add: serve_append categories_def universal_newlines_no_CR universal_newlines_same)

theorem categories_current_text_witness:
  "valid_utf8 ''[\"food\"]'' \<and> CR \<notin> set ''[\"food\"]''
   \<and> categories (Some ''[\"food\"]'') = Inr ''[\"food\"]''
   \<and> serve None ([FileEdit (Some ''[]''), Fetch] @ [FileEdit (Some ''[\"food\"]''), Fetch])
        = [Inr ''[]'', Inr ''[\"food\"]'']"
proof -
  let ?b = "''[\"food\"]''"
  have v: "valid_utf8 ?b"
    by (simp add: byte_def)
  have c: "CR \<notin> set ?b"
    by (simp add: CR_def)
  have s: "serve None [FileEdit (Some ''[]''), Fetch] = [Inr ''[]'']"
    by (simp add: categories_def byte_def CR_def)
  have same: "universal_newlines ?b = ?b"
    using c by (rule universal_newlines_same)
  note t = categories_current_text [OF v, of None "[FileEdit (Some ''[]''), Fetch]"]
  from t have "categories (Some ?b) = Inr ?b"
    by (simp only: same)
  moreover from t have "serve None ([FileEdit (Some ''[]''), Fetch] @ [FileEdit (Some ?b), Fetch])
      = [Inr ''[]'', Inr ?b]"
    by (simp only: same s append.simps)
  ultimately show ?thesis
    using v c by (intro conjI)
qed

text \<open>
  C9 as stated fails on a file with Windows line endings: the bytes \<open>[] CR LF\<close> are
  answered as \<open>[] LF\<close>.
\<close>

theorem categories_crlf_counterexample:
  "categories (Some (''[]'' @ [CR, LF])) = Inr (''[]'' @ [LF])
   \<and> categories (Some (''[]'' @ [CR, LF])) \<noteq> Inr (''[]'' @ [CR, LF])"
proof -
  have v: "valid_utf8 (''[]'' @ [CR, LF])"
    by (simp add: byte_def CR_def LF_def)
  have n: "universal_newlines (''[]'' @ [CR, LF]) = ''[]'' @ [LF]"
    by (simp add: CR_def LF_def)
  have "categories (Some (''[]'' @ [CR, LF])) = Inr (''[]'' @ [LF])"
    unfolding categories_def using v n by (simp only: option.case if_True)
  moreover have "''[]'' @ [LF] \<noteq> ''[]'' @ [CR, LF]"
    by simp
  ultimately show ?thesis by simp
qed

end
